theory Spec2Isabelle
  imports Complex_Main "HOL-Library.Word"
begin

section \<open>Webhook transaction processor: data model\<close>

text \<open>
  The repository is a FastAPI application over an SQLAlchemy session. The embedding keeps
  the three operations of the source (\<open>receive_webhook\<close> and \<open>get_transaction\<close> of
  \<^verbatim>\<open>app/api/routes.py\<close>, \<open>process_transaction\<close> of \<^verbatim>\<open>app/services/processor.py\<close>)
  as functions on an explicit table of rows. Every value that the source reads from its
  environment is an argument: the UUID drawn by \<^verbatim>\<open>uuid.uuid4\<close>, the database clock behind
  \<^verbatim>\<open>func.now()\<close>, the application clock behind \<^verbatim>\<open>datetime.utcnow()\<close>, the time zone
  of the database session, and whether a round trip to the database fails.
\<close>

type_synonym uuid = "128 word"

text \<open>
  A timestamp, as a count of microseconds. A value of a \<^verbatim>\<open>DateTime(timezone=True)\<close> column
  is an instant (microseconds since the epoch); a naive \<^verbatim>\<open>datetime\<close> of Python is a reading
  of a wall clock, and becomes an instant only when the database session places it in its
  time zone.
\<close>

type_synonym datetime = int

text \<open>
  \<^verbatim>\<open>TransactionBase\<close> of \<^verbatim>\<open>app/schemas/transaction.py\<close>; \<^verbatim>\<open>TransactionCreate\<close> adds
  nothing to it. The Python \<^verbatim>\<open>float\<close> of \<open>amount\<close> is a rational here, the decimal
  number that the float prints as and that the driver sends to the database.
\<close>

record TransactionBase =
  transaction_id :: string
  source_account :: string
  destination_account :: string
  amount :: rat
  currency :: string

text \<open>
  \<^verbatim>\<open>Transaction\<close> of \<^verbatim>\<open>app/db/models.py\<close>. It has the five columns above and four more;
  the column \<^verbatim>\<open>id\<close> is \<open>id_col\<close> here. \<open>status\<close> is a \<^verbatim>\<open>String\<close> column, and the
  two timestamps are nullable.
\<close>

record Transaction = TransactionBase +
  id_col :: uuid
  status :: string
  created_at :: "datetime option"
  processed_at :: "datetime option"

type_synonym table = "Transaction list"

text \<open>
  The exceptions that reach the three operations. A failure of the database other than a
  violated constraint (a lost connection, a value out of range) is a \<open>storage_failure\<close>;
  SQLAlchemy raises it under a class that is not \<^verbatim>\<open>IntegrityError\<close>.
\<close>

datatype storage_failure = OperationalError | DataError

datatype exn =
    IntegrityError
  | OtherDBError storage_failure
  | NameError string
  | HTTPException nat string

section \<open>The session\<close>

definition violates_unique :: "Transaction \<Rightarrow> table \<Rightarrow> bool" where
  \<comment> \<open>\<^verbatim>\<open>primary_key=True\<close> on \<^verbatim>\<open>id\<close>, \<^verbatim>\<open>unique=True\<close> on \<^verbatim>\<open>transaction_id\<close>\<close>
  "violates_unique r tbl \<longleftrightarrow>
     id_col r \<in> set (map id_col tbl) \<or> transaction_id r \<in> set (map transaction_id tbl)"

definition numeric_12_2 :: "rat \<Rightarrow> rat" where
  \<comment> \<open>\<^verbatim>\<open>Numeric(12, 2)\<close> of \<^verbatim>\<open>amount\<close>: the column keeps two fractional digits and rounds
      a half away from zero\<close>
  "numeric_12_2 a = sgn a * of_int \<lfloor>\<bar>a\<bar> * 100 + 1 / 2\<rfloor> / 100"

definition as_timestamptz :: "int \<Rightarrow> datetime \<Rightarrow> datetime" where
  \<comment> \<open>\<^verbatim>\<open>DateTime(timezone=True)\<close> given a naive \<^verbatim>\<open>datetime\<close>: the session reads it as local
      time of its own zone, \<open>offset\<close> microseconds east of UTC\<close>
  "as_timestamptz offset naive = naive - offset"

definition query_first :: "storage_failure option \<Rightarrow> string \<Rightarrow> table \<Rightarrow> exn + Transaction option" where
  \<comment> \<open>Modelled from the spec: \<^verbatim>\<open>app/db/session.py\<close> (\<^verbatim>\<open>SessionLocal\<close>, \<^verbatim>\<open>Base\<close>) is not
      among the sources. \<^verbatim>\<open>find_by_transaction_id(id) -> record | not_found\<close> of the Ledger
      Store, for \<^verbatim>\<open>db.query(Transaction).filter(...).first()\<close>.\<close>
  "query_first fault tid tbl =
     (case fault of
        Some f \<Rightarrow> Inl (OtherDBError f)
      | None \<Rightarrow> Inr (find (\<lambda>r. transaction_id r = tid) tbl))"

definition commit_insert ::
  "storage_failure option \<Rightarrow> datetime \<Rightarrow> Transaction \<Rightarrow> table \<Rightarrow> exn + table" where
  \<comment> \<open>Modelled from the spec: \<^verbatim>\<open>app/db/session.py\<close> is not among the sources.
      \<^verbatim>\<open>insert_if_absent(record) -> {inserted | duplicate}\<close> of the Ledger Store, for
      \<^verbatim>\<open>db.add(txn); db.commit()\<close>, under the constraints that \<^verbatim>\<open>app/db/models.py\<close>
      declares; \<^verbatim>\<open>amount\<close> is stored as the column rounds it and \<^verbatim>\<open>created_at\<close> takes
      its server default \<^verbatim>\<open>func.now()\<close>. An amount of more digits than the column holds
      is a \<^verbatim>\<open>DataError\<close>, one of the failures that \<open>fault\<close> stands for.\<close>
  "commit_insert fault now r tbl =
     (case fault of
        Some f \<Rightarrow> Inl (OtherDBError f)
      | None \<Rightarrow>
          if violates_unique r tbl then Inl IntegrityError
          else Inr (tbl @ [r\<lparr>amount := numeric_12_2 (amount r), created_at := Some now\<rparr>]))"

definition commit_update ::
  "storage_failure option \<Rightarrow> int \<Rightarrow> Transaction \<Rightarrow> table \<Rightarrow> exn + table" where
  \<comment> \<open>Modelled from the spec: \<^verbatim>\<open>app/db/session.py\<close> is not among the sources.
      \<^verbatim>\<open>mark_processed\<close> of the Ledger Store, for \<^verbatim>\<open>db.commit()\<close> on an object whose
      \<^verbatim>\<open>status\<close> and \<^verbatim>\<open>processed_at\<close> were assigned: the session writes the two columns
      to the rows of the object's primary key, the naive \<^verbatim>\<open>processed_at\<close> as an instant of
      the session's time zone.\<close>
  "commit_update fault offset txn tbl =
     (case fault of
        Some f \<Rightarrow> Inl (OtherDBError f)
      | None \<Rightarrow>
          Inr (map (\<lambda>r. if id_col r = id_col txn
                         then r\<lparr>status := status txn,
                                processed_at := map_option (as_timestamptz offset) (processed_at txn)\<rparr>
                         else r) tbl))"

section \<open>Ingestion: \<^verbatim>\<open>receive_webhook\<close>\<close>

record accept_env =
  uuid4 :: uuid
  func_now :: datetime
  insert_fault :: "storage_failure option"

text \<open>
  The state that a request sees: the table, and the settlement tasks that
  \<^verbatim>\<open>background_tasks.add_task\<close> has scheduled so far, each one the \<open>transaction_id\<close>
  passed to \<open>process_transaction\<close>.
\<close>

record app_state =
  table :: table
  background_tasks :: "string list"

definition accepted :: "(string \<times> string) list" where
  "accepted = [(''message'', ''accepted'')]"

definition receive_webhook ::
  "accept_env \<Rightarrow> TransactionBase \<Rightarrow> app_state \<Rightarrow> (exn + (string \<times> string) list) \<times> app_state" where
  "receive_webhook env payload st =
     (let txn = \<lparr>transaction_id = transaction_id payload,
                 source_account = source_account payload,
                 destination_account = destination_account payload,
                 amount = amount payload,
                 currency = currency payload,
                 id_col = uuid4 env,
                 status = ''PROCESSING'',
                 created_at = None,
                 processed_at = None\<rparr>
      in case commit_insert (insert_fault env) (func_now env) txn (table st) of
           Inr tbl' \<Rightarrow>
             (Inr accepted,
              st\<lparr>table := tbl',
                 background_tasks := background_tasks st @ [transaction_id payload]\<rparr>)
         | Inl e \<Rightarrow>
             if e = IntegrityError then (Inr accepted, st)
             else (Inl e, st))"

section \<open>Lookup: \<^verbatim>\<open>get_transaction\<close>\<close>

definition routes_globals :: "string list" where
  \<comment> \<open>the names that \<^verbatim>\<open>app/api/routes.py\<close> imports or defines\<close>
  "routes_globals =
     [''APIRouter'', ''Depends'', ''BackgroundTasks'', ''Session'', ''IntegrityError'',
      ''SessionLocal'', ''Transaction'', ''TransactionCreate'', ''TransactionResponse'',
      ''process_transaction'', ''List'', ''router'', ''get_db'', ''receive_webhook'',
      ''get_transaction'']"

definition raise_HTTPException :: "nat \<Rightarrow> string \<Rightarrow> exn" where
  \<comment> \<open>\<^verbatim>\<open>raise HTTPException(status_code=..., detail=...)\<close> inside \<^verbatim>\<open>routes.py\<close>: the name
      is looked up when the statement runs, and an unbound name raises \<^verbatim>\<open>NameError\<close>\<close>
  "raise_HTTPException code detail =
     (if ''HTTPException'' \<in> set routes_globals then HTTPException code detail
      else NameError ''HTTPException'')"

definition get_transaction ::
  "storage_failure option \<Rightarrow> string \<Rightarrow> table \<Rightarrow> exn + Transaction list" where
  "get_transaction fault tid tbl =
     (case query_first fault tid tbl of
        Inl e \<Rightarrow> Inl e
      | Inr None \<Rightarrow> Inl (raise_HTTPException 404 ''Transaction not found'')
      | Inr (Some txn) \<Rightarrow> Inr [txn])"

section \<open>Settlement: \<^verbatim>\<open>process_transaction\<close>\<close>

text \<open>
  What a settlement task reads from its environment: the application's UTC clock when the
  task starts, by how much \<^verbatim>\<open>time.sleep\<close> overshoots, the time zone of the database
  session (microseconds east of UTC), and the failures of its two round trips.
\<close>

record settle_env =
  task_started :: datetime
  overshoot :: nat
  session_utc_offset :: int
  select_fault :: "storage_failure option"
  update_fault :: "storage_failure option"

definition sleep_delay :: int where
  \<comment> \<open>\<^verbatim>\<open>time.sleep(30)\<close>, in microseconds\<close>
  "sleep_delay = 30 * 1000000"

definition utcnow :: "settle_env \<Rightarrow> datetime" where
  \<comment> \<open>\<^verbatim>\<open>datetime.utcnow()\<close> after \<^verbatim>\<open>time.sleep(30)\<close>: a naive reading of the UTC clock,
      at least the delay past the start of the task\<close>
  "utcnow env = task_started env + sleep_delay + int (overshoot env)"

text \<open>The task opens a session of its own after the sleep and closes it on every path.\<close>

definition process_transaction ::
  "settle_env \<Rightarrow> string \<Rightarrow> table \<Rightarrow> (exn + unit) \<times> table" where
  "process_transaction env tid tbl =
     (case query_first (select_fault env) tid tbl of
        Inl e \<Rightarrow> (Inl e, tbl)
      | Inr None \<Rightarrow> (Inr (), tbl)
      | Inr (Some txn) \<Rightarrow>
          (let txn' = txn\<lparr>status := ''PROCESSED'', processed_at := Some (utcnow env)\<rparr>
           in case commit_update (update_fault env) (session_utc_offset env) txn' tbl of
                Inl e \<Rightarrow> (Inl e, tbl)
              | Inr tbl' \<Rightarrow> (Inr (), tbl')))"

section \<open>Runs of the system\<close>

datatype event =
    Webhook accept_env TransactionBase
  | Settlement settle_env string

fun step :: "event \<Rightarrow> app_state \<Rightarrow> app_state" where
  "step (Webhook env payload) st = snd (receive_webhook env payload st)"
| "step (Settlement env tid) st = st\<lparr>table := snd (process_transaction env tid (table st))\<rparr>"

definition init_state :: app_state where
  "init_state = \<lparr>table = [], background_tasks = []\<rparr>"


section \<open>Auxiliary notions for the statements\<close>

text \<open>The row that a successful insert of \<open>receive_webhook\<close> leaves in the table.\<close>

definition inserted_row :: "accept_env \<Rightarrow> TransactionBase \<Rightarrow> Transaction" where
  "inserted_row env payload =
     \<lparr>transaction_id = transaction_id payload,
      source_account = source_account payload,
      destination_account = destination_account payload,
      amount = numeric_12_2 (amount payload),
      currency = currency payload,
      id_col = uuid4 env,
      status = ''PROCESSING'',
      created_at = Some (func_now env),
      processed_at = None\<rparr>"

text \<open>The instant that a settlement task leaves in \<open>processed_at\<close>.\<close>

definition written_at :: "settle_env \<Rightarrow> datetime" where
  "written_at env = as_timestamptz (session_utc_offset env) (utcnow env)"

text \<open>What the settlement's update does to one row, for the primary key \<open>u\<close> it targets.\<close>

definition settle_row :: "uuid \<Rightarrow> datetime \<Rightarrow> Transaction \<Rightarrow> Transaction" where
  "settle_row u t r =
     (if id_col r = u then r\<lparr>status := ''PROCESSED'', processed_at := Some t\<rparr> else r)"

text \<open>The insert of a webhook would violate one of the two uniqueness constraints.\<close>

definition collides :: "accept_env \<Rightarrow> TransactionBase \<Rightarrow> table \<Rightarrow> bool" where
  "collides env payload tbl \<longleftrightarrow>
     uuid4 env \<in> set (map id_col tbl) \<or> transaction_id payload \<in> set (map transaction_id tbl)"


definition status_closed :: "Transaction \<Rightarrow> bool" where
  "status_closed r \<longleftrightarrow> status r = ''PROCESSING'' \<or> status r = ''PROCESSED''"

text \<open>A change of rows that leaves each row alone or settles it.\<close>

definition row_step :: "(Transaction \<Rightarrow> Transaction) \<Rightarrow> bool" where
  "row_step g \<longleftrightarrow> (\<forall>r. g r = r \<or> (\<exists>u t. g r = settle_row u t r))"

text \<open>Sample inputs: the scenario of the specification, and environments without faults; a
  worker starts at the given time, in a session of the given zone or of UTC.\<close>

definition tx1 :: TransactionBase where
  "tx1 = \<lparr>transaction_id = ''tx-1'', source_account = ''A'', destination_account = ''B'',
          amount = 10, currency = ''USD''\<rparr>"

definition tx1_changed :: TransactionBase where
  "tx1_changed = \<lparr>transaction_id = ''tx-1'', source_account = ''C'', destination_account = ''D'',
          amount = 99, currency = ''EUR''\<rparr>"

definition tx2 :: TransactionBase where
  "tx2 = \<lparr>transaction_id = ''tx-2'', source_account = ''A'', destination_account = ''C'',
          amount = 5, currency = ''USD''\<rparr>"

definition webhook_env :: "uuid \<Rightarrow> datetime \<Rightarrow> accept_env" where
  "webhook_env u t = \<lparr>uuid4 = u, func_now = t, insert_fault = None\<rparr>"

definition zoned_worker_env :: "datetime \<Rightarrow> int \<Rightarrow> settle_env" where
  "zoned_worker_env t offset =
     \<lparr>task_started = t, overshoot = 0, session_utc_offset = offset,
      select_fault = None, update_fault = None\<rparr>"

definition worker_env :: "datetime \<Rightarrow> settle_env" where
  "worker_env t = zoned_worker_env t 0"

text \<open>A table of two records, as two webhooks leave it.\<close>

definition two_rows :: table where
  "two_rows = [inserted_row (webhook_env 1 100) tx1, inserted_row (webhook_env 2 110) tx2]"

text \<open>The state after the scenario's webhook and its settlement.\<close>

definition settled_state :: app_state where
  "settled_state = fold step [Webhook (webhook_env 1 100) tx1, Settlement (worker_env 130) ''tx-1'']
     init_state"

section \<open>Facts about the session\<close>

lemma find_append_first:
  "find P (xs @ ys) = (case find P xs of Some x \<Rightarrow> Some x | None \<Rightarrow> find P ys)"
  by (induction xs) auto

lemma find_map_stable:
  "(\<And>x. P (f x) = P x) \<Longrightarrow> find P (map f xs) = map_option f (find P xs)"
  by (induction xs) auto

lemma find_None_tid:
  "find (\<lambda>r. transaction_id r = tid) tbl = None \<longleftrightarrow> tid \<notin> set (map transaction_id tbl)"
  by (induction tbl) auto

lemma receive_webhook_failure:
  "insert_fault env = Some f \<Longrightarrow> receive_webhook env payload st = (Inl (OtherDBError f), st)"
  by (simp add: receive_webhook_def commit_insert_def)

lemma receive_webhook_duplicate:
  "insert_fault env = None \<Longrightarrow> collides env payload (table st) \<Longrightarrow>
   receive_webhook env payload st = (Inr accepted, st)"
  by (simp add: receive_webhook_def commit_insert_def violates_unique_def collides_def)

lemma receive_webhook_inserted:
  "insert_fault env = None \<Longrightarrow> \<not> collides env payload (table st) \<Longrightarrow>
   receive_webhook env payload st =
     (Inr accepted,
      st\<lparr>table := table st @ [inserted_row env payload],
         background_tasks := background_tasks st @ [transaction_id payload]\<rparr>)"
  by (simp add: receive_webhook_def commit_insert_def violates_unique_def collides_def
      inserted_row_def)

lemma table_changed_iff:
  "table (snd (receive_webhook env payload st)) \<noteq> table st \<longleftrightarrow>
     insert_fault env = None \<and> \<not> collides env payload (table st)"
proof (cases "insert_fault env")
  case None
  then show ?thesis
    by (cases "collides env payload (table st)")
       (simp_all add: receive_webhook_duplicate receive_webhook_inserted)
next
  case (Some f)
  then show ?thesis by (simp add: receive_webhook_failure)
qed

lemma process_transaction_select_failure:
  "select_fault env = Some f \<Longrightarrow> process_transaction env tid tbl = (Inl (OtherDBError f), tbl)"
  by (simp add: process_transaction_def query_first_def)

lemma process_transaction_absent:
  "select_fault env = None \<Longrightarrow> find (\<lambda>r. transaction_id r = tid) tbl = None \<Longrightarrow>
   process_transaction env tid tbl = (Inr (), tbl)"
  by (simp add: process_transaction_def query_first_def)

lemma process_transaction_update_failure:
  "select_fault env = None \<Longrightarrow> find (\<lambda>r. transaction_id r = tid) tbl = Some txn \<Longrightarrow>
   update_fault env = Some f \<Longrightarrow>
   process_transaction env tid tbl = (Inl (OtherDBError f), tbl)"
  by (simp add: process_transaction_def query_first_def commit_update_def)

lemma process_transaction_settled:
  "select_fault env = None \<Longrightarrow> find (\<lambda>r. transaction_id r = tid) tbl = Some txn \<Longrightarrow>
   update_fault env = None \<Longrightarrow>
   process_transaction env tid tbl = (Inr (), map (settle_row (id_col txn) (written_at env)) tbl)"
  by (simp add: process_transaction_def query_first_def commit_update_def Let_def
      settle_row_def [abs_def] written_at_def)

lemma process_transaction_table:
  "snd (process_transaction env tid tbl) = tbl \<or>
   (\<exists>txn. find (\<lambda>r. transaction_id r = tid) tbl = Some txn \<and>
      snd (process_transaction env tid tbl) = map (settle_row (id_col txn) (written_at env)) tbl)"
proof (cases "select_fault env")
  case (Some f)
  then show ?thesis by (simp add: process_transaction_select_failure)
next
  case None
  show ?thesis
  proof (cases "find (\<lambda>r. transaction_id r = tid) tbl")
    case N: None
    with None show ?thesis by (simp add: process_transaction_absent)
  next
    case S: (Some txn)
    show ?thesis
    proof (cases "update_fault env")
      case U: None
      with None S show ?thesis by (simp add: process_transaction_settled)
    next
      case U: (Some f)
      with None S show ?thesis by (simp add: process_transaction_update_failure)
    qed
  qed
qed

lemma settle_row_tid [simp]: "transaction_id (settle_row u t r) = transaction_id r"
  by (simp add: settle_row_def)

lemma settle_row_id [simp]: "id_col (settle_row u t r) = id_col r"
  by (simp add: settle_row_def)

lemma settle_row_twice: "settle_row u t2 (settle_row u t1 r) = settle_row u t2 r"
  by (simp add: settle_row_def)

lemma find_settled:
  "find (\<lambda>r. transaction_id r = tid) (map (settle_row u t) tbl)
   = map_option (settle_row u t) (find (\<lambda>r. transaction_id r = tid) tbl)"
  by (rule find_map_stable) simp

text \<open>
  What one step does to the table: rows keep their places, a row changes only into its
  settled form, and a webhook may append one row that collides with none.
\<close>

lemma row_step_id: "row_step (\<lambda>r. r)"
  by (simp add: row_step_def)

lemma row_step_settle: "row_step (settle_row u t)"
  unfolding row_step_def by blast


lemma row_step_id_col: "row_step g \<Longrightarrow> id_col (g r) = id_col r"
proof -
  assume "row_step g"
  then consider "g r = r" | u t where "g r = settle_row u t r"
    unfolding row_step_def by blast
  then show ?thesis by cases simp_all
qed


lemma row_step_processed: "row_step g \<Longrightarrow> status r = ''PROCESSED'' \<Longrightarrow> status (g r) = ''PROCESSED''"
proof -
  assume g: "row_step g" and p: "status r = ''PROCESSED''"
  from g consider "g r = r" | u t where "g r = settle_row u t r"
    unfolding row_step_def by blast
  then show ?thesis using p by cases (simp_all add: settle_row_def)
qed

lemma row_step_closed: "row_step g \<Longrightarrow> status_closed r \<Longrightarrow> status_closed (g r)"
proof -
  assume g: "row_step g" and p: "status_closed r"
  from g consider "g r = r" | u t where "g r = settle_row u t r"
    unfolding row_step_def by blast
  then show ?thesis using p by cases (simp_all add: settle_row_def status_closed_def)
qed

lemma step_table:
  "\<exists>g ys. table (step ev st) = map g (table st) @ ys \<and> row_step g \<and>
     (ys = [] \<or> (\<exists>env payload. ys = [inserted_row env payload] \<and>
                    \<not> collides env payload (table st)))"
proof (cases ev)
  case (Webhook env payload)
  have "table (snd (receive_webhook env payload st)) = table st \<or>
        (table (snd (receive_webhook env payload st)) = table st @ [inserted_row env payload] \<and>
         \<not> collides env payload (table st))"
  proof (cases "insert_fault env")
    case None
    then show ?thesis
      by (cases "collides env payload (table st)")
         (simp_all add: receive_webhook_duplicate receive_webhook_inserted)
  next
    case (Some f)
    then show ?thesis by (simp add: receive_webhook_failure)
  qed
  then have "\<exists>ys. table (step ev st) = map (\<lambda>r. r) (table st) @ ys \<and>
     (ys = [] \<or> (\<exists>env payload. ys = [inserted_row env payload] \<and>
                    \<not> collides env payload (table st)))"
    using Webhook by auto
  with row_step_id show ?thesis by blast
next
  case (Settlement env tid)
  from process_transaction_table [of env tid "table st"]
  consider "snd (process_transaction env tid (table st)) = table st"
    | u where "snd (process_transaction env tid (table st))
               = map (settle_row u (written_at env)) (table st)"
    by blast
  then show ?thesis
  proof cases
    case 1
    then have "table (step ev st) = map (\<lambda>r. r) (table st) @ []" using Settlement by simp
    with row_step_id show ?thesis by blast
  next
    case 2
    then have "table (step ev st) = map (settle_row u (written_at env)) (table st) @ []"
      using Settlement by simp
    with row_step_settle show ?thesis by blast
  qed
qed



lemma env_fields:
  "uuid4 (webhook_env u t) = u" "func_now (webhook_env u t) = t"
  "insert_fault (webhook_env u t) = None"
  "task_started (zoned_worker_env t z) = t" "session_utc_offset (zoned_worker_env t z) = z"
  "select_fault (zoned_worker_env t z) = None" "update_fault (zoned_worker_env t z) = None"
  "written_at (zoned_worker_env t z) = t + 30000000 - z"
  "task_started (worker_env t) = t" "session_utc_offset (worker_env t) = 0"
  "select_fault (worker_env t) = None" "update_fault (worker_env t) = None"
  "written_at (worker_env t) = t + 30000000"
  by (simp_all add: webhook_env_def worker_env_def zoned_worker_env_def written_at_def
      as_timestamptz_def utcnow_def sleep_delay_def)


lemmas settlement_defs =
  process_transaction_def query_first_def commit_update_def worker_env_def
  zoned_worker_env_def utcnow_def sleep_delay_def as_timestamptz_def

section \<open>Lookup of an unknown identifier\<close>

text \<open>
  C2. A lookup of a \<open>transaction_id\<close> that was never ingested should answer with an
  explicit not-found result. \<^verbatim>\<open>routes.py\<close> raises \<^verbatim>\<open>HTTPException\<close> without importing
  it, so on the empty store the lookup of any identifier ends in a \<^verbatim>\<open>NameError\<close>
  instead of the 404 answer.
\<close>

theorem unknown_lookup_raises_NameError:
  "get_transaction None ''tx-unknown'' (table init_state) = Inl (NameError ''HTTPException'')"
  by (simp add: get_transaction_def query_first_def raise_HTTPException_def routes_globals_def
      init_state_def)

section \<open>Settlement of a missing record\<close>

text \<open>
  C7. When the store has no record of the task's \<open>transaction_id\<close> and the read of the
  store succeeds, the settlement task ends without an exception and the table after it
  is the table before it.
\<close>

theorem settlement_skips_missing_record:
  assumes "tid \<notin> set (map transaction_id tbl)" and "select_fault env = None"
  shows "process_transaction env tid tbl = (Inr (), tbl)"
proof -
  from assms(1) have "find (\<lambda>r. transaction_id r = tid) tbl = None"
    by (simp add: find_None_tid)
  with assms(2) show ?thesis
    by (simp add: process_transaction_def query_first_def)
qed

theorem settlement_skips_missing_record_witness:
  "process_transaction (worker_env 5) ''tx-2''
     [\<lparr>transaction_id = ''tx-1'', source_account = ''A'', destination_account = ''B'',
       amount = 10, currency = ''USD'', id_col = 1, status = ''PROCESSING'',
       created_at = Some 0, processed_at = None\<rparr>]
   = (Inr (),
     [\<lparr>transaction_id = ''tx-1'', source_account = ''A'', destination_account = ''B'',
       amount = 10, currency = ''USD'', id_col = 1, status = ''PROCESSING'',
       created_at = Some 0, processed_at = None\<rparr>])"
  by (rule settlement_skips_missing_record) (simp_all add: env_fields)

section \<open>Ingestion\<close>

lemma inserted_facts:
  assumes "receive_webhook env payload st = (res, st')" and "table st' \<noteq> table st"
  shows "insert_fault env = None" and "\<not> collides env payload (table st)"
    and "res = Inr accepted"
    and "st' = st\<lparr>table := table st @ [inserted_row env payload],
                   background_tasks := background_tasks st @ [transaction_id payload]\<rparr>"
proof -
  from assms have "table (snd (receive_webhook env payload st)) \<noteq> table st" by simp
  then show a: "insert_fault env = None" and b: "\<not> collides env payload (table st)"
    by (simp_all add: table_changed_iff)
  from receive_webhook_inserted [OF a b] assms(1)
  show "res = Inr accepted"
    and "st' = st\<lparr>table := table st @ [inserted_row env payload],
                   background_tasks := background_tasks st @ [transaction_id payload]\<rparr>"
    by simp_all
qed

lemma find_inserted:
  assumes "\<not> collides env payload tbl"
  shows "find (\<lambda>r. transaction_id r = transaction_id payload) (tbl @ [inserted_row env payload])
         = Some (inserted_row env payload)"
proof -
  from assms have "find (\<lambda>r. transaction_id r = transaction_id payload) tbl = None"
    by (simp add: find_None_tid collides_def)
  then show ?thesis by (simp add: find_append_first inserted_row_def)
qed


lemma tx1_id: "transaction_id tx1 = ''tx-1''"
  by (simp add: tx1_def)

lemma get_transaction_found:
  "find (\<lambda>r. transaction_id r = tid) tbl = Some r \<Longrightarrow> get_transaction None tid tbl = Inr [r]"
  by (simp add: get_transaction_def query_first_def)

lemma first_webhook:
  "receive_webhook (webhook_env 1 100) tx1 init_state =
     (Inr accepted,
      \<lparr>table = [inserted_row (webhook_env 1 100) tx1], background_tasks = [''tx-1'']\<rparr>)"
  by (simp add: receive_webhook_inserted webhook_env_def collides_def init_state_def tx1_def)

text \<open>
  C4. When \<open>receive_webhook\<close> has inserted the payload (the table it leaves differs from
  the table it found), it has answered \<open>accepted\<close>, and a lookup of the payload's
  \<open>transaction_id\<close> in that table, before anything else runs, shows one record with
  \<open>status = PROCESSING\<close> and no \<open>processed_at\<close>.
\<close>

theorem no_premature_settlement:
  assumes "receive_webhook env payload st = (res, st')" and "table st' \<noteq> table st"
  shows "res = Inr accepted \<and>
         (\<exists>r. get_transaction None (transaction_id payload) (table st') = Inr [r] \<and>
              status r = ''PROCESSING'' \<and> processed_at r = None)"
proof -
  note f = inserted_facts [OF assms]
  have "get_transaction None (transaction_id payload) (table st') = Inr [inserted_row env payload]"
    using find_inserted [OF f(2)] by (simp add: f(4) get_transaction_found)
  moreover have "status (inserted_row env payload) = ''PROCESSING''"
    and "processed_at (inserted_row env payload) = None"
    by (simp_all add: inserted_row_def)
  ultimately show ?thesis using f(3) by simp
qed

theorem no_premature_settlement_witness:
  "\<exists>r. get_transaction None ''tx-1''
          (table (snd (receive_webhook (webhook_env 1 100) tx1 init_state))) = Inr [r] \<and>
        status r = ''PROCESSING'' \<and> processed_at r = None"
proof -
  have "table \<lparr>table = [inserted_row (webhook_env 1 100) tx1], background_tasks = [''tx-1'']\<rparr>
        \<noteq> table init_state"
    by (simp add: init_state_def)
  from no_premature_settlement [OF first_webhook this] show ?thesis
    by (simp add: first_webhook tx1_id)
qed



text \<open>
  C5. A call is answered with \<open>accepted\<close> while the state stays as it was exactly when
  the insert hit no storage failure and violated a uniqueness constraint, the one on
  \<open>transaction_id\<close> or the primary key; every storage failure reaches the caller as an
  error; and a call that leaves the table as it was schedules no task.
\<close>

theorem accept_failure_handling:
  "(receive_webhook env payload st = (Inr accepted, st) \<longleftrightarrow>
      insert_fault env = None \<and>
      (transaction_id payload \<in> set (map transaction_id (table st)) \<or>
       uuid4 env \<in> set (map id_col (table st)))) \<and>
   (insert_fault env = Some f \<longrightarrow>
      receive_webhook env payload st = (Inl (OtherDBError f), st)) \<and>
   (table (snd (receive_webhook env payload st)) = table st \<longrightarrow>
      background_tasks (snd (receive_webhook env payload st)) = background_tasks st)"
proof (cases "insert_fault env")
  case (Some g)
  then show ?thesis by (simp add: receive_webhook_failure)
next
  case None
  show ?thesis
  proof (cases "collides env payload (table st)")
    case True
    with None show ?thesis by (auto simp: receive_webhook_duplicate collides_def)
  next
    case False
    from receive_webhook_inserted [OF None False] None False show ?thesis
      by (auto simp: collides_def dest: arg_cong [where f = "\<lambda>s. length (table s)"])
  qed
qed

theorem accept_failure_handling_witness:
  "receive_webhook \<lparr>uuid4 = 2, func_now = 200, insert_fault = Some OperationalError\<rparr> tx2
      \<lparr>table = [inserted_row (webhook_env 1 100) tx1], background_tasks = [''tx-1'']\<rparr> =
     (Inl (OtherDBError OperationalError),
      \<lparr>table = [inserted_row (webhook_env 1 100) tx1], background_tasks = [''tx-1'']\<rparr>) \<and>
   receive_webhook (webhook_env 2 200) tx1_changed
      \<lparr>table = [inserted_row (webhook_env 1 100) tx1], background_tasks = [''tx-1'']\<rparr> =
     (Inr accepted,
      \<lparr>table = [inserted_row (webhook_env 1 100) tx1], background_tasks = [''tx-1'']\<rparr>)"
proof -
  let ?s1 = "\<lparr>table = [inserted_row (webhook_env 1 100) tx1], background_tasks = [''tx-1'']\<rparr>"
  let ?e = "\<lparr>uuid4 = 2, func_now = 200, insert_fault = Some OperationalError\<rparr>"
  have a: "insert_fault ?e = Some OperationalError" by simp
  have b: "insert_fault (webhook_env 2 200) = None"
    "transaction_id tx1_changed \<in> set (map transaction_id (table ?s1))"
    by (simp_all add: env_fields inserted_row_def tx1_def tx1_changed_def)
  from accept_failure_handling [of ?e tx2 ?s1 OperationalError] a
    accept_failure_handling [of "webhook_env 2 200" tx1_changed ?s1] b
  show ?thesis by blast
qed

text \<open>
  A webhook for a new \<open>transaction_id\<close> whose generated primary key is already in the
  table: the handler catches the \<^verbatim>\<open>IntegrityError\<close> by its class and answers
  \<open>accepted\<close>, and nothing is stored.
\<close>

theorem primary_key_collision_is_acknowledged:
  "receive_webhook (webhook_env 1 200) tx2
      \<lparr>table = [inserted_row (webhook_env 1 100) tx1], background_tasks = [''tx-1'']\<rparr> =
     (Inr accepted,
      \<lparr>table = [inserted_row (webhook_env 1 100) tx1], background_tasks = [''tx-1'']\<rparr>) \<and>
   transaction_id tx2 \<notin> set (map transaction_id [inserted_row (webhook_env 1 100) tx1])"
  by (simp add: receive_webhook_duplicate collides_def env_fields inserted_row_def
      tx1_def tx2_def)

section \<open>Status values and their order\<close>

lemma inserted_row_closed: "status_closed (inserted_row env payload)"
  by (simp add: status_closed_def inserted_row_def)

lemma step_closed:
  assumes "\<forall>r\<in>set (table st). status_closed r"
  shows "\<forall>r\<in>set (table (step ev st)). status_closed r"
proof -
  from step_table [of ev st] obtain g ys where
    t: "table (step ev st) = map g (table st) @ ys" and g: "row_step g" and
    ys: "ys = [] \<or> (\<exists>env payload. ys = [inserted_row env payload] \<and>
                    \<not> collides env payload (table st))"
    by blast
  from assms g have "\<forall>r\<in>set (map g (table st)). status_closed r"
    by (simp add: row_step_closed)
  moreover from ys have "\<forall>r\<in>set ys. status_closed r"
    by (auto simp: inserted_row_closed)
  ultimately show ?thesis by (auto simp: t)
qed

lemma run_closed:
  "\<forall>r\<in>set (table st). status_closed r \<Longrightarrow>
   \<forall>r\<in>set (table (fold step evs st)). status_closed r"
proof (induction evs arbitrary: st)
  case Nil
  then show ?case by simp
next
  case (Cons ev evs)
  from Cons.prems have "\<forall>r\<in>set (table (step ev st)). status_closed r"
    by (rule step_closed)
  then show ?case using Cons.IH by simp
qed

lemma step_processed_stays:
  assumes "i < length (table st)" and "status (table st ! i) = ''PROCESSED''"
  shows "i < length (table (step ev st)) \<and>
         id_col (table (step ev st) ! i) = id_col (table st ! i) \<and>
         status (table (step ev st) ! i) = ''PROCESSED''"
proof -
  from step_table [of ev st] obtain g ys where
    t: "table (step ev st) = map g (table st) @ ys" and g: "row_step g"
    by blast
  from assms(1) have "table (step ev st) ! i = g (table st ! i)"
    by (simp add: t nth_append)
  with assms g show ?thesis
    by (simp add: t row_step_id_col row_step_processed)
qed

lemma run_processed_stays:
  "i < length (table st) \<Longrightarrow> status (table st ! i) = ''PROCESSED'' \<Longrightarrow>
   i < length (table (fold step evs st)) \<and>
   id_col (table (fold step evs st) ! i) = id_col (table st ! i) \<and>
   status (table (fold step evs st) ! i) = ''PROCESSED''"
proof (induction evs arbitrary: st)
  case Nil
  then show ?case by simp
next
  case (Cons ev evs)
  from step_processed_stays [OF Cons.prems, of ev]
  have a: "i < length (table (step ev st))"
    and b: "id_col (table (step ev st) ! i) = id_col (table st ! i)"
    and c: "status (table (step ev st) ! i) = ''PROCESSED''" by simp_all
  from Cons.IH [OF a c] b show ?case by simp
qed

lemma settled_state_eq:
  "settled_state = \<lparr>table = [(inserted_row (webhook_env 1 100) tx1)
       \<lparr>status := ''PROCESSED'', processed_at := Some 30000130\<rparr>], background_tasks = [''tx-1'']\<rparr>"
  by (simp add: settled_state_def first_webhook)
     (simp add: settlement_defs inserted_row_def tx1_def)

text \<open>
  C8. In every state that webhooks and settlement tasks reach from the empty store, the
  status of every record is \<open>PROCESSING\<close> or \<open>PROCESSED\<close>; and from any state, a record
  that is \<open>PROCESSED\<close> stays in its place in the table, keeps its primary key and is
  still \<open>PROCESSED\<close> after any further webhooks and settlement tasks.
\<close>

theorem status_closed_and_monotonic:
  "(\<forall>r\<in>set (table (fold step evs init_state)).
      status r = ''PROCESSING'' \<or> status r = ''PROCESSED'') \<and>
   (\<forall>i<length (table st). status (table st ! i) = ''PROCESSED'' \<longrightarrow>
      i < length (table (fold step evs' st)) \<and>
      id_col (table (fold step evs' st) ! i) = id_col (table st ! i) \<and>
      status (table (fold step evs' st) ! i) = ''PROCESSED'')"
proof -
  have "\<forall>r\<in>set (table init_state). status_closed r" by (simp add: init_state_def)
  then have "\<forall>r\<in>set (table (fold step evs init_state)). status_closed r"
    by (rule run_closed)
  then show ?thesis
    using run_processed_stays [of _ st evs'] by (simp add: status_closed_def)
qed

theorem status_closed_and_monotonic_witness:
  "status (table (fold step [Webhook (webhook_env 2 200) tx1_changed,
                             Settlement (worker_env 160) ''tx-1''] settled_state) ! 0)
   = ''PROCESSED'' \<and>
   (status (table settled_state ! 0) = ''PROCESSING'' \<or>
    status (table settled_state ! 0) = ''PROCESSED'')"
proof -
  have a: "0 < length (table settled_state)" by (simp add: settled_state_eq)
  have b: "status (table settled_state ! 0) = ''PROCESSED''" by (simp add: settled_state_eq)
  from a have c: "table settled_state ! 0 \<in> set (table settled_state)" by (rule nth_mem)
  from status_closed_and_monotonic
    [of "[Webhook (webhook_env 1 100) tx1, Settlement (worker_env 130) ''tx-1'']" settled_state
        "[Webhook (webhook_env 2 200) tx1_changed, Settlement (worker_env 160) ''tx-1'']"]
    a b c show ?thesis
    unfolding settled_state_def [symmetric] by blast
qed

section \<open>The frame of a settlement\<close>

lemma find_Some_tid:
  "find (\<lambda>r. transaction_id r = tid) tbl = Some txn \<Longrightarrow> txn \<in> set tbl \<and> transaction_id txn = tid"
  by (induction tbl) (auto split: if_splits)

lemma distinct_id_col_eq:
  "distinct (map id_col tbl) \<Longrightarrow> x \<in> set tbl \<Longrightarrow> y \<in> set tbl \<Longrightarrow>
   id_col x = id_col y \<Longrightarrow> x = y"
  by (auto simp: distinct_map dest: inj_onD)

lemma step_distinct:
  assumes "distinct (map id_col (table st))"
  shows "distinct (map id_col (table (step ev st)))"
proof -
  from step_table [of ev st] obtain g ys where
    t: "table (step ev st) = map g (table st) @ ys" and g: "row_step g" and
    ys: "ys = [] \<or> (\<exists>env payload. ys = [inserted_row env payload] \<and>
                    \<not> collides env payload (table st))"
    by blast
  from g have "map id_col (map g (table st)) = map id_col (table st)"
    by (simp add: row_step_id_col)
  then have m: "map id_col (table (step ev st)) = map id_col (table st) @ map id_col ys"
    unfolding t map_append by (rule arg_cong2 [where f = append]) simp
  from ys show ?thesis
  proof
    assume "ys = []"
    with assms show ?thesis unfolding m by simp
  next
    assume "\<exists>env payload. ys = [inserted_row env payload] \<and> \<not> collides env payload (table st)"
    then obtain env payload where y: "ys = [inserted_row env payload]"
      and c: "\<not> collides env payload (table st)" by blast
    from c have "id_col (inserted_row env payload) \<notin> set (map id_col (table st))"
      by (simp add: collides_def inserted_row_def)
    with assms show ?thesis unfolding m y by simp
  qed
qed

lemma reachable_primary_keys_distinct:
  "distinct (map id_col (table (fold step evs init_state)))"
proof -
  have "distinct (map id_col (table st)) \<Longrightarrow> distinct (map id_col (table (fold step evs st)))" for st
    by (induction evs arbitrary: st) (simp_all add: step_distinct)
  then show ?thesis by (simp add: init_state_def)
qed

text \<open>
  C9. On a table whose primary keys are distinct, as they are in every reachable state,
  the settlement task keeps the number of rows, leaves every row of another
  \<open>transaction_id\<close> as it was, changes a row in no column but \<open>status\<close> and
  \<open>processed_at\<close>, and changes at most one row.
\<close>

theorem settlement_frame:
  assumes "distinct (map id_col tbl)" and "process_transaction env tid tbl = (res, tbl')"
  shows "length tbl' = length tbl \<and>
         (\<forall>i<length tbl.
            (transaction_id (tbl ! i) \<noteq> tid \<longrightarrow> tbl' ! i = tbl ! i) \<and>
            (tbl' ! i = tbl ! i \<or>
             tbl' ! i = (tbl ! i)\<lparr>status := ''PROCESSED'', processed_at := Some (written_at env)\<rparr>)) \<and>
         (\<forall>i<length tbl. \<forall>j<length tbl.
            tbl' ! i \<noteq> tbl ! i \<longrightarrow> tbl' ! j \<noteq> tbl ! j \<longrightarrow> i = j)"
proof -
  from assms(2) have s: "snd (process_transaction env tid tbl) = tbl'" by simp
  from process_transaction_table [of env tid tbl]
  consider "tbl' = tbl"
    | txn where "find (\<lambda>r. transaction_id r = tid) tbl = Some txn"
        and "tbl' = map (settle_row (id_col txn) (written_at env)) tbl"
    unfolding s by blast
  then show ?thesis
  proof cases
    case 1
    then show ?thesis by simp
  next
    case 2
    from find_Some_tid [OF 2(1)] have mem: "txn \<in> set tbl" and tid: "transaction_id txn = tid"
      by simp_all
    have other: "tbl' ! i = tbl ! i" if "i < length tbl" "transaction_id (tbl ! i) \<noteq> tid" for i
    proof -
      from that tid have "tbl ! i \<noteq> txn" by auto
      with distinct_id_col_eq [OF assms(1) _ mem] that(1)
      have "id_col (tbl ! i) \<noteq> id_col txn" by auto
      with that(1) show ?thesis by (simp add: 2(2) settle_row_def)
    qed
    have shape: "tbl' ! i = tbl ! i \<or>
        tbl' ! i = (tbl ! i)\<lparr>status := ''PROCESSED'', processed_at := Some (written_at env)\<rparr>"
      if "i < length tbl" for i
      using that by (simp add: 2(2) settle_row_def)
    have single: "i = j"
      if "i < length tbl" "j < length tbl" "tbl' ! i \<noteq> tbl ! i" "tbl' ! j \<noteq> tbl ! j" for i j
    proof -
      from that have "id_col (tbl ! i) = id_col txn" and "id_col (tbl ! j) = id_col txn"
        by (auto simp: 2(2) settle_row_def split: if_splits)
      then have "map id_col tbl ! i = map id_col tbl ! j" using that(1,2) by simp
      moreover have "(map id_col tbl ! i = map id_col tbl ! j) = (i = j)"
        using assms(1) that(1,2) by (intro nth_eq_iff_index_eq) simp_all
      ultimately show ?thesis by simp
    qed
    from other shape single show ?thesis by (simp add: 2(2))
  qed
qed

theorem settlement_frame_witness:
  "length (snd (process_transaction (worker_env 130) ''tx-1'' two_rows)) = 2 \<and>
   snd (process_transaction (worker_env 130) ''tx-1'' two_rows) ! 1 = two_rows ! 1"
proof -
  have d: "distinct (map id_col two_rows)"
    by (simp add: two_rows_def inserted_row_def webhook_env_def)
  have e: "process_transaction (worker_env 130) ''tx-1'' two_rows
           = (fst (process_transaction (worker_env 130) ''tx-1'' two_rows),
              snd (process_transaction (worker_env 130) ''tx-1'' two_rows))" by simp
  have l: "1 < length two_rows" by (simp add: two_rows_def)
  have t: "transaction_id (two_rows ! 1) \<noteq> ''tx-1''"
    by (simp add: two_rows_def inserted_row_def tx2_def)
  from settlement_frame [OF d e] l t show ?thesis
    by (simp add: two_rows_def)
qed

section \<open>Settling twice\<close>

lemma settle_row_same_time: "settle_row u t (settle_row u t r) = settle_row u t r"
  by (simp add: settle_row_def)

text \<open>
  C6. Settling a \<open>transaction_id\<close> again, with no storage failure, raises nothing and
  leaves the table that a single settlement at the later time leaves: the status stays
  \<open>PROCESSED\<close> and \<open>processed_at\<close> is written again. The end state is the one of the
  first settlement when both write the same time.
\<close>

theorem resettlement_last_write_wins:
  assumes "select_fault env1 = None" and "update_fault env1 = None"
    and "select_fault env2 = None" and "update_fault env2 = None"
  shows "process_transaction env2 tid (snd (process_transaction env1 tid tbl))
           = (Inr (), snd (process_transaction env2 tid tbl)) \<and>
         (written_at env2 = written_at env1 \<longrightarrow>
            process_transaction env2 tid (snd (process_transaction env1 tid tbl))
              = process_transaction env1 tid tbl)"
proof (cases "find (\<lambda>r. transaction_id r = tid) tbl")
  case None
  with assms show ?thesis by (simp add: process_transaction_absent)
next
  case (Some txn)
  let ?u = "id_col txn"
  have p1: "process_transaction env1 tid tbl = (Inr (), map (settle_row ?u (written_at env1)) tbl)"
    using assms(1,2) Some by (simp add: process_transaction_settled)
  have p2: "process_transaction env2 tid tbl = (Inr (), map (settle_row ?u (written_at env2)) tbl)"
    using assms(3,4) Some by (simp add: process_transaction_settled)
  have f: "find (\<lambda>r. transaction_id r = tid) (map (settle_row ?u (written_at env1)) tbl)
           = Some (settle_row ?u (written_at env1) txn)"
    by (simp add: find_settled Some)
  have "process_transaction env2 tid (map (settle_row ?u (written_at env1)) tbl)
        = (Inr (), map (settle_row ?u (written_at env2)) (map (settle_row ?u (written_at env1)) tbl))"
    using process_transaction_settled [OF assms(3) f assms(4)] by simp
  also have "map (settle_row ?u (written_at env2)) (map (settle_row ?u (written_at env1)) tbl)
        = map (settle_row ?u (written_at env2)) tbl"
    by (simp add: settle_row_twice)
  finally have "process_transaction env2 tid (snd (process_transaction env1 tid tbl))
        = (Inr (), map (settle_row ?u (written_at env2)) tbl)"
    by (simp add: p1)
  then show ?thesis by (simp add: p1 p2)
qed

theorem resettlement_last_write_wins_witness:
  "process_transaction (worker_env 160) ''tx-1''
     (snd (process_transaction (worker_env 130) ''tx-1'' [inserted_row (webhook_env 1 100) tx1]))
   = (Inr (), [settle_row 1 30000160 (inserted_row (webhook_env 1 100) tx1)])"
proof -
  have a: "select_fault (worker_env 130) = None" "update_fault (worker_env 130) = None"
    "select_fault (worker_env 160) = None" "update_fault (worker_env 160) = None"
    by (simp_all add: env_fields)
  have "snd (process_transaction (worker_env 160) ''tx-1'' [inserted_row (webhook_env 1 100) tx1])
        = [settle_row 1 30000160 (inserted_row (webhook_env 1 100) tx1)]"
    by (simp add: settlement_defs inserted_row_def tx1_def settle_row_def webhook_env_def)
  with resettlement_last_write_wins [OF a, of "''tx-1''" "[inserted_row (webhook_env 1 100) tx1]"]
  show ?thesis by simp
qed

text \<open>
  The second settlement of the scenario's record, started thirty microseconds after the
  first, does not leave the table of the first: \<open>processed_at\<close> has moved.
\<close>

theorem resettlement_changes_processed_at:
  "snd (process_transaction (worker_env 160) ''tx-1''
          (snd (process_transaction (worker_env 130) ''tx-1''
                  [inserted_row (webhook_env 1 100) tx1])))
   \<noteq> snd (process_transaction (worker_env 130) ''tx-1'' [inserted_row (webhook_env 1 100) tx1])"
  by (simp add: settlement_defs inserted_row_def tx1_def)

section \<open>Eventual settlement\<close>






section \<open>A webhook for a stored identifier\<close>




end
